theory Spec2Isabelle
  imports Complex_Main
begin

section \<open>Time values, time zones and the Date operations the scheduler uses\<close>

text \<open>
  A JavaScript \<open>Date\<close> holds a time value: milliseconds since the epoch, in UTC. The
  local-time methods (\<open>getHours\<close>, \<open>getDay\<close>, \<open>setHours\<close>, \<open>setDate\<close>) convert it to
  a reading of the local clock, work on that reading with the abstract operations of
  ECMAScript (\<open>Day\<close>, \<open>TimeWithinDay\<close>, \<open>WeekDay\<close>, \<open>MakeTime\<close>, \<open>MakeDay\<close>,
  \<open>MakeDate\<close>), and convert the reading back to a time value. A \<open>Date\<close> is mutable;
  each setter is a function returning the new time value. Time values are unbounded
  integers: the range limit of \<open>TimeClip\<close> is not modelled, every \<open>Date\<close> here being the
  current time moved by at most a week.
\<close>

definition msPerDay :: int where
  "msPerDay = 86400000"

definition msPerHour :: int where
  "msPerHour = 3600000"

definition msPerMinute :: int where
  "msPerMinute = 60000"

definition msPerSecond :: int where
  "msPerSecond = 1000"

definition Day :: "int \<Rightarrow> int" where
  "Day t = t div msPerDay"

definition TimeWithinDay :: "int \<Rightarrow> int" where
  "TimeWithinDay t = t mod msPerDay"

definition WeekDay :: "int \<Rightarrow> int" where
  \<comment> \<open>0 is Sunday; the epoch was a Thursday.\<close>
  "WeekDay t = (Day t + 4) mod 7"

definition HourFromTime :: "int \<Rightarrow> int" where
  "HourFromTime t = (t div msPerHour) mod 24"

definition MinFromTime :: "int \<Rightarrow> int" where
  "MinFromTime t = (t div msPerMinute) mod 60"

definition SecFromTime :: "int \<Rightarrow> int" where
  "SecFromTime t = (t div msPerSecond) mod 60"

definition msFromTime :: "int \<Rightarrow> int" where
  "msFromTime t = t mod msPerSecond"

definition MakeTime :: "int \<Rightarrow> int \<Rightarrow> int \<Rightarrow> int \<Rightarrow> int" where
  "MakeTime hour minute sec ms =
     hour * msPerHour + minute * msPerMinute + sec * msPerSecond + ms"

definition MakeDate :: "int \<Rightarrow> int \<Rightarrow> int" where
  "MakeDate day time = day * msPerDay + time"

definition InLeapYear :: "int \<Rightarrow> bool" where
  "InLeapYear y = ((y mod 4 = 0 \<and> y mod 100 \<noteq> 0) \<or> y mod 400 = 0)"

definition DayFromYear :: "int \<Rightarrow> int" where
  "DayFromYear y =
     365 * (y - 1970) + (y - 1969) div 4 - (y - 1901) div 100 + (y - 1601) div 400"

definition monthStart :: "bool \<Rightarrow> int \<Rightarrow> int" where
  \<comment> \<open>Day within the year of the first day of month \<open>mn\<close> (0 is January).\<close>
  "monthStart leap mn =
     [0, 31, 59, 90, 120, 151, 181, 212, 243, 273, 304, 334] ! nat mn
       + (if leap \<and> 2 \<le> mn then 1 else 0)"

definition MakeDay :: "int \<Rightarrow> int \<Rightarrow> int \<Rightarrow> int" where
  \<comment> \<open>The day number of the first of the month, plus \<open>date - 1\<close>: a date past the end
      of the month carries into the following months.\<close>
  "MakeDay year month date =
     (let ym = year + month div 12; mn = month mod 12
      in DayFromYear ym + monthStart (InLeapYear ym) mn + date - 1)"

definition DateUTC :: "int \<Rightarrow> int \<Rightarrow> int \<Rightarrow> int \<Rightarrow> int \<Rightarrow> int \<Rightarrow> int \<Rightarrow> int" where
  \<comment> \<open>\<open>Date.UTC(year, month, date, hours, minutes, seconds, ms)\<close>, month from 0.\<close>
  "DateUTC year month date hours minutes seconds ms =
     MakeDate (MakeDay year month date) (MakeTime hours minutes seconds ms)"

text \<open>
  The time zone of the host. Its offset from UTC depends on the instant: a zone is the
  offset in force before its first transition and the list of its transitions, each the
  instant of the change and the offset in force from then on, in increasing order of
  instant. Offsets are in milliseconds east of UTC.
\<close>

record zone =
  initial :: int
  transitions :: "(int \<times> int) list"

fun offsetFrom :: "int \<Rightarrow> (int \<times> int) list \<Rightarrow> int \<Rightarrow> int" where
  "offsetFrom off [] t = off"
| "offsetFrom off ((u, off') # rest) t = (if u \<le> t then offsetFrom off' rest t else off)"

definition offsetAt :: "zone \<Rightarrow> int \<Rightarrow> int" where
  \<comment> \<open>The offset in force at the instant \<open>t\<close>.\<close>
  "offsetAt z t = offsetFrom (initial z) (transitions z) t"

definition LocalTime :: "zone \<Rightarrow> int \<Rightarrow> int" where
  \<comment> \<open>The reading of the local clock at the instant \<open>t\<close>.\<close>
  "LocalTime z t = t + offsetAt z t"

definition offsets :: "zone \<Rightarrow> int list" where
  "offsets z = initial z # map snd (transitions z)"

definition possibleInstants :: "zone \<Rightarrow> int \<Rightarrow> int list" where
  \<comment> \<open>The instants at which the local clock reads \<open>rd\<close>: none when a transition skips
      the reading, several when a transition repeats it. Any such instant is \<open>rd\<close> less
      the offset in force at it, so the offsets of the zone give all candidates.\<close>
  "possibleInstants z rd =
     filter (\<lambda>u. LocalTime z u = rd) (map (\<lambda>off. rd - off) (offsets z))"

fun offsetBeforeGap :: "int \<Rightarrow> (int \<times> int) list \<Rightarrow> int \<Rightarrow> int" where
  \<comment> \<open>For a skipped reading: the offset in force just before the transition that
      skips it.\<close>
  "offsetBeforeGap off [] rd = off"
| "offsetBeforeGap off ((u, off') # rest) rd =
     (if u + off \<le> rd \<and> rd < u + off' then off else offsetBeforeGap off' rest rd)"

definition UTC :: "zone \<Rightarrow> int \<Rightarrow> int" where
  \<comment> \<open>The instant a \<open>Date\<close> takes for the local reading \<open>rd\<close>: the earliest of the
      possible instants, and for a skipped reading the one obtained with the offset
      before the transition.\<close>
  "UTC z rd =
     (case possibleInstants z rd of
        [] \<Rightarrow> rd - offsetBeforeGap (initial z) (transitions z) rd
      | u # us \<Rightarrow> fold min us u)"

definition newDate :: "zone \<Rightarrow> int \<Rightarrow> int \<Rightarrow> int \<Rightarrow> int \<Rightarrow> int \<Rightarrow> int \<Rightarrow> int \<Rightarrow> int" where
  \<comment> \<open>\<open>new Date(year, month, date, hours, minutes, seconds, ms)\<close>: a local reading,
      month from 0.\<close>
  "newDate z year month date hours minutes seconds ms =
     UTC z (MakeDate (MakeDay year month date) (MakeTime hours minutes seconds ms))"

definition getHours :: "zone \<Rightarrow> int \<Rightarrow> int" where
  "getHours z d = HourFromTime (LocalTime z d)"

definition getDay :: "zone \<Rightarrow> int \<Rightarrow> int" where
  "getDay z d = WeekDay (LocalTime z d)"

definition setHours :: "zone \<Rightarrow> int \<Rightarrow> int \<Rightarrow> int \<Rightarrow> int \<Rightarrow> int \<Rightarrow> int" where
  \<comment> \<open>\<open>d.setHours(hour, min, sec, ms)\<close>: the local day is kept, the time within it
      replaced.\<close>
  "setHours z d hour minute sec ms =
     UTC z (MakeDate (Day (LocalTime z d)) (MakeTime hour minute sec ms))"

definition setDate_getDate_plus :: "zone \<Rightarrow> int \<Rightarrow> int \<Rightarrow> int" where
  \<comment> \<open>\<open>d.setDate(d.getDate() + n)\<close>. \<open>setDate(dt)\<close> is
      \<open>MakeDate (MakeDay year month dt) (TimeWithinDay t)\<close> for the local year and month
      of \<open>t\<close>, and \<open>MakeDay year month dt\<close> is the day number of the first of that month
      plus \<open>dt - 1\<close>; with \<open>dt = getDate() + n\<close> that is the local day of \<open>t\<close> plus \<open>n\<close>,
      at the same reading of the clock.\<close>
  "setDate_getDate_plus z d n =
     (let t = LocalTime z d in UTC z (MakeDate (Day t + n) (TimeWithinDay t)))"

text \<open>Zones used as concrete inputs, with their transitions of 2025.\<close>

definition fixedZone :: "int \<Rightarrow> zone" where
  \<comment> \<open>A zone whose offset never changes.\<close>
  "fixedZone off = \<lparr>initial = off, transitions = []\<rparr>"

definition newYork :: zone where
  \<comment> \<open>America/New_York: UTC-5, and UTC-4 from 9 March 07:00Z to 2 November 06:00Z.\<close>
  "newYork = \<lparr>initial = - 18000000,
               transitions = [(DateUTC 2025 2 9 7 0 0 0, - 14400000),
                              (DateUTC 2025 10 2 6 0 0 0, - 18000000)]\<rparr>"

definition troll :: zone where
  \<comment> \<open>Antarctica/Troll: UTC+0, and UTC+2 from 30 March 01:00Z to 26 October 01:00Z.\<close>
  "troll = \<lparr>initial = 0,
             transitions = [(DateUTC 2025 2 30 1 0 0 0, 7200000),
                            (DateUTC 2025 9 26 1 0 0 0, 0)]\<rparr>"

section \<open>The recurrence calculator\<close>

text \<open>
  \<open>calculateNextRun\<close> of the server's scheduler. The \<open>switch\<close> on the cron string is
  the chain of comparisons below, the \<open>default\<close> branch last.
\<close>

definition calculateNextRun :: "zone \<Rightarrow> string \<Rightarrow> int \<Rightarrow> int" where
  "calculateNextRun z scheduleCron currentTime =
     (let nextRun = currentTime in
      if scheduleCron = ''0 * * * *'' then
        setHours z nextRun (getHours z nextRun + 1) 0 0 0
      else if scheduleCron = ''0 9 * * *'' then
        (let nextRun = setHours z nextRun 9 0 0 0 in
         if nextRun \<le> currentTime then setDate_getDate_plus z nextRun 1 else nextRun)
      else if scheduleCron = ''0 9 * * 1'' then
        (let nextRun = setHours z nextRun 9 0 0 0;
             dayOfWeek = getDay z nextRun;
             daysUntilMonday = (if dayOfWeek = 0 then 1 else (8 - dayOfWeek) mod 7) in
         if dayOfWeek = 1 \<and> nextRun \<le> currentTime then setDate_getDate_plus z nextRun 7
         else if dayOfWeek \<noteq> 1 then setDate_getDate_plus z nextRun daysUntilMonday
         else nextRun)
      else setDate_getDate_plus z nextRun 1)"

text \<open>
  \<open>handleSubmit\<close> of the reminder form. Its inputs are the fields of the form and the
  current time; \<open>customDateTime\<close> is \<open>None\<close> for the empty field and otherwise the local
  reading that the value of the \<open>datetime-local\<close> field denotes, which
  \<open>new Date(customDateTime)\<close> turns into a time value. It returns early, shows a toast,
  or calls \<open>createMutation.mutate\<close> with the new reminder.
\<close>

record new_reminder =
  title_new :: string
  type_new :: string
  schedule_cron_new :: string
  next_run_at_new :: int
  active_new :: bool

datatype submit_outcome = Returned | Toast string | Mutate new_reminder

definition handleSubmit ::
    "zone \<Rightarrow> string \<Rightarrow> string \<Rightarrow> string \<Rightarrow> int option \<Rightarrow> int \<Rightarrow> submit_outcome" where
  "handleSubmit z title type' schedule customDateTime now =
     (if title = [] \<or> type' = [] \<or> schedule = [] then Returned
      else if schedule = ''custom'' then
        (case customDateTime of
           None \<Rightarrow> Toast ''Please select a custom date and time''
         | Some reading \<Rightarrow>
             (let nextRun = UTC z reading in
              if nextRun \<le> now then Toast ''Custom time must be in the future''
              else Mutate \<lparr>title_new = title, type_new = type', schedule_cron_new = ''once'',
                           next_run_at_new = nextRun, active_new = True\<rparr>))
      else
        (let (nextRun, scheduleCron) =
           (if schedule = ''hourly'' then
              (setHours z now (getHours z now + 1) 0 0 0, ''0 * * * *'')
            else if schedule = ''daily'' then
              (let nextRun = setHours z now 9 0 0 0 in
               (if nextRun \<le> now then setDate_getDate_plus z nextRun 1 else nextRun,
                ''0 9 * * *''))
            else if schedule = ''weekly'' then
              (let nextRun = setHours z now 9 0 0 0;
                   dayOfWeek = getDay z nextRun;
                   daysUntilMonday = (if dayOfWeek = 0 then 1 else (8 - dayOfWeek) mod 7) in
               (if dayOfWeek = 1 \<and> nextRun \<le> now then setDate_getDate_plus z nextRun 7
                else if dayOfWeek \<noteq> 1 then setDate_getDate_plus z nextRun daysUntilMonday
                else nextRun,
                ''0 9 * * 1''))
            else
              (setDate_getDate_plus z now 1, ''0 9 * * *''))
         in Mutate \<lparr>title_new = title, type_new = type', schedule_cron_new = scheduleCron,
                      next_run_at_new = nextRun, active_new = True\<rparr>))"

definition localAt :: "zone \<Rightarrow> int \<Rightarrow> int \<Rightarrow> int \<Rightarrow> int" where
  \<comment> \<open>The instant a \<open>Date\<close> takes for \<open>hour:minute:00.000\<close> on local day number \<open>day\<close>;
      used to state what the calculator returns.\<close>
  "localAt z day hour minute = UTC z (MakeDate day (MakeTime hour minute 0 0))"

section \<open>The reminders table and the scheduler's tick\<close>

text \<open>
  A row of the \<open>reminders\<close> table, with the columns the scheduler reads or writes, and
  the table as the list of its rows. Timestamps are time values in milliseconds.
\<close>

record reminder =
  id_rem :: int
  user_id :: int
  title :: string
  type_rem :: string
  schedule_cron :: string
  next_run_at :: int
  active :: bool

text \<open>
  The query at the head of every tick,
  \<open>db.select().from(reminders).where(and(eq(reminders.active, true),
  lte(reminders.next_run_at, now)))\<close>: the rows it selects.
\<close>

definition dueReminders :: "int \<Rightarrow> reminder list \<Rightarrow> reminder list" where
  "dueReminders now tbl = filter (\<lambda>r. active r = True \<and> next_run_at r \<le> now) tbl"

text \<open>
  The same query as an operation on the database (the store's \<open>listDue\<close>): the rows
  selected, and the table after the call. A select writes nothing.
\<close>

definition listDue :: "int \<Rightarrow> reminder list \<Rightarrow> reminder list \<times> reminder list" where
  "listDue asOf tbl = (dueReminders asOf tbl, tbl)"

text \<open>
  The two updates of the loop body:
  \<open>db.update(reminders).set({ active: false }).where(eq(reminders.id, i))\<close> and
  \<open>db.update(reminders).set({ next_run_at: nextRun }).where(eq(reminders.id, i))\<close>.
\<close>

definition update_set_active :: "int \<Rightarrow> bool \<Rightarrow> reminder list \<Rightarrow> reminder list" where
  "update_set_active i v tbl = map (\<lambda>r. if id_rem r = i then r\<lparr>active := v\<rparr> else r) tbl"

definition update_set_next_run_at :: "int \<Rightarrow> int \<Rightarrow> reminder list \<Rightarrow> reminder list" where
  "update_set_next_run_at i nextRun tbl =
     map (\<lambda>r. if id_rem r = i then r\<lparr>next_run_at := nextRun\<rparr> else r) tbl"

text \<open>
  The store's \<open>markFired\<close>, which is not a function of the source: it names the two
  updates by their argument, the first for no new run time, the second for a new one.
\<close>

definition markFired :: "int \<Rightarrow> int option \<Rightarrow> reminder list \<Rightarrow> reminder list" where
  "markFired i newNextRunAt tbl =
     (case newNextRunAt of
        None \<Rightarrow> update_set_active i False tbl
      | Some nextRun \<Rightarrow> update_set_next_run_at i nextRun tbl)"

text \<open>The event sent to the room \<open>user_<user_id>\<close> of the socket server.\<close>

record reminder_due =
  room :: int
  id_ev :: int
  title_ev :: string
  type_ev :: string

text \<open>
  One iteration of \<open>for (const reminder of dueReminders)\<close>: the event is emitted, then
  the row is deactivated (\<open>once\<close>, \<open>custom\<close>) or moved to its next run time. The state is
  the table and the events emitted so far; the database calls are taken to succeed.
\<close>

definition fire :: "zone \<Rightarrow> int \<Rightarrow> reminder \<Rightarrow> reminder list \<times> reminder_due list
    \<Rightarrow> reminder list \<times> reminder_due list" where
  "fire z now reminder st =
     (let tbl = fst st;
          emitted = snd st @ [\<lparr>room = user_id reminder, id_ev = id_rem reminder,
                               title_ev = title reminder, type_ev = type_rem reminder\<rparr>]
      in if schedule_cron reminder = ''once'' \<or> schedule_cron reminder = ''custom'' then
           (update_set_active (id_rem reminder) False tbl, emitted)
         else
           (let nextRun = calculateNextRun z (schedule_cron reminder) now
            in (update_set_next_run_at (id_rem reminder) nextRun tbl, emitted)))"

text \<open>The callback of \<open>cron.schedule('* * * * *', ...)\<close> at time \<open>now\<close>.\<close>

definition tick :: "zone \<Rightarrow> int \<Rightarrow> reminder list \<Rightarrow> reminder list \<times> reminder_due list" where
  "tick z now tbl = fold (fire z now) (dueReminders now tbl) (tbl, [])"

text \<open>Two rows used as concrete inputs: a one-time reminder and an hourly one.\<close>

definition pill :: reminder where
  "pill = \<lparr>id_rem = 1, user_id = 7, title = ''Evening pill'', type_rem = ''medication'',
            schedule_cron = ''once'', next_run_at = 1000, active = True\<rparr>"

definition walk :: reminder where
  "walk = \<lparr>id_rem = 2, user_id = 7, title = ''Short walk'', type_rem = ''task'',
            schedule_cron = ''0 * * * *'', next_run_at = 2000, active = True\<rparr>"

section \<open>Object signatures and their matching\<close>

text \<open>
  JavaScript numbers are modelled as real numbers: \<open>0.7\<close>, \<open>0.3\<close> and \<open>0.9\<close> are the
  exact decimals and arithmetic does not round.
\<close>

record DetectedObject =
  class_obj :: string
  score :: real
  bbox :: "real \<times> real \<times> real \<times> real"

record ObjectSignature =
  objects :: "DetectedObject list"
  dominantObjects :: "string list"
  objectCount :: real

record StoredSignature =
  id_stored :: int
  signature :: ObjectSignature
  userTag_stored :: string

record Match =
  id_match :: int
  userTag :: string
  confidence :: real

definition calculateSimilarity :: "ObjectSignature \<Rightarrow> ObjectSignature \<Rightarrow> real" where
  \<comment> \<open>\<open>new Set([...a, ...b]).size\<close> is the number of distinct elements of \<open>a @ b\<close>.\<close>
  "calculateSimilarity sig1 sig2 =
     (let shared = filter (\<lambda>obj. obj \<in> set (dominantObjects sig2)) (dominantObjects sig1);
          total = length (remdups (dominantObjects sig1 @ dominantObjects sig2))
      in if total = 0 then 0
         else
           (let objectCountSimilarity =
                  1 - \<bar>objectCount sig1 - objectCount sig2\<bar>
                        / max (max (objectCount sig1) (objectCount sig2)) 1;
                objectSimilarity = real (length shared) / real total
            in objectSimilarity * 0.7 + objectCountSimilarity * 0.3))"

definition findMatches :: "ObjectSignature \<Rightarrow> StoredSignature list \<Rightarrow> Match list" where
  \<comment> \<open>\<open>sort((a, b) => b.confidence - a.confidence)\<close> is a stable sort by decreasing
      confidence; \<open>slice(0, 3)\<close> keeps the first three.\<close>
  "findMatches newSignature storedSignatures =
     (let matches =
            sort_key (\<lambda>m. - confidence m)
              (filter (\<lambda>m. confidence m \<ge> 0.9)
                 (map (\<lambda>stored. \<lparr>id_match = id_stored stored,
                                  userTag = userTag_stored stored,
                                  confidence = calculateSimilarity newSignature (signature stored)\<rparr>)
                    storedSignatures))
      in take 3 matches)"

text \<open>Signatures used as concrete inputs.\<close>

definition sig_of :: "string list \<Rightarrow> real \<Rightarrow> ObjectSignature" where
  "sig_of dominant n = \<lparr>objects = [], dominantObjects = dominant, objectCount = n\<rparr>"

definition stored_of :: "int \<Rightarrow> string \<Rightarrow> string list \<Rightarrow> real \<Rightarrow> StoredSignature" where
  "stored_of i tag dominant n =
     \<lparr>id_stored = i, signature = sig_of dominant n, userTag_stored = tag\<rparr>"

definition shelf :: "StoredSignature list" where
  "shelf =
     [stored_of 1 ''tea set'' [''spoon'', ''cup''] 19,
      stored_of 2 ''mug'' [''cup''] 20,
      stored_of 3 ''breakfast'' [''cup'', ''spoon''] 20,
      stored_of 4 ''drawer'' [''spoon'', ''cup''] 18,
      stored_of 5 ''tray'' [''spoon'', ''cup''] 20]"

text \<open>
  A reading of the local clock is ordinary at \<open>now\<close> when it exists and the \<open>Date\<close>
  takes for it the instant given by the offset in force at \<open>now\<close>: no transition of
  the zone comes between the two. Every reading is ordinary in a zone whose offset never
  changes.
\<close>

definition ordinaryReading :: "zone \<Rightarrow> int \<Rightarrow> int \<Rightarrow> bool" where
  "ordinaryReading z now rd \<longleftrightarrow> possibleInstants z rd \<noteq> [] \<and> UTC z rd = rd - offsetAt z now"

section \<open>Arithmetic of time values\<close>

lemma MakeTime_9: "MakeTime 9 0 0 0 = 32400000"
  by (simp add: MakeTime_def msPerHour_def msPerMinute_def msPerSecond_def)

lemma hour_start:
  "Day t * msPerDay + HourFromTime t * msPerHour = (t div msPerHour) * msPerHour"
proof -
  have "t div 86400000 = (t div 3600000) div 24"
    by (simp add: zdiv_zmult2_eq)
  moreover have "(t div 3600000) div 24 * 24 + (t div 3600000) mod 24 = t div 3600000"
    by simp
  ultimately show ?thesis
    unfolding Day_def HourFromTime_def msPerDay_def msPerHour_def by linarith
qed

lemma day_bounds: "Day t * msPerDay \<le> t \<and> t < Day t * msPerDay + msPerDay"
  unfolding Day_def msPerDay_def
  using div_mult_mod_eq [of t 86400000] pos_mod_bound [of 86400000 t]
    pos_mod_sign [of 86400000 t]
  by linarith

lemma hour_bounds:
  "(t div msPerHour) * msPerHour \<le> t \<and> t < (t div msPerHour) * msPerHour + msPerHour"
  unfolding msPerHour_def
  using div_mult_mod_eq [of t 3600000] pos_mod_bound [of 3600000 t]
    pos_mod_sign [of 3600000 t]
  by linarith

lemma Day_MakeDate: "0 \<le> x \<Longrightarrow> x < msPerDay \<Longrightarrow> Day (MakeDate d x) = d"
  unfolding Day_def MakeDate_def msPerDay_def
  by (simp add: div_pos_pos_trivial)

lemma WeekDay_range: "0 \<le> WeekDay t \<and> WeekDay t < 7"
  unfolding WeekDay_def by simp

lemma hour_multiple_fields:
  "MinFromTime (k * msPerHour) = 0 \<and> SecFromTime (k * msPerHour) = 0
   \<and> msFromTime (k * msPerHour) = 0 \<and> HourFromTime (k * msPerHour) = k mod 24"
proof -
  have "k * 3600000 = (k * 60) * 60000" "k * 3600000 = (k * 3600) * 1000"
    by simp_all
  then have "k * 3600000 div 60000 = k * 60" "k * 3600000 div 1000 = k * 3600"
    "k * 3600000 mod 1000 = 0"
    by simp_all
  then show ?thesis
    by (simp add: MinFromTime_def SecFromTime_def msFromTime_def HourFromTime_def
        msPerHour_def msPerMinute_def msPerSecond_def)
qed



lemma monday_shift:
  assumes "w = ((d::int) + 4) mod 7"
  shows "(d + (8 - w) + 4) mod 7 = 1"
proof -
  define q where "q = (d + 4) div 7"
  have "d + 4 = 7 * q + w"
    using assms mult_div_mod_eq [of 7 "d + 4"] by (simp add: q_def)
  then have "d + (8 - w) + 4 = 1 + 7 * (q + 1)" by simp
  then show ?thesis by (simp only: mod_mult_self2) simp
qed

lemma sunday_shift:
  assumes "((d::int) + 4) mod 7 = 0"
  shows "(d + 1 + 4) mod 7 = 1"
proof -
  define q where "q = (d + 4) div 7"
  have "d + 4 = 7 * q"
    using assms mult_div_mod_eq [of 7 "d + 4"] by (simp add: q_def)
  then have "d + 1 + 4 = 1 + 7 * q" by simp
  then show ?thesis by (simp only: mod_mult_self2) simp
qed


lemma Day_TimeWithinDay: "MakeDate (Day t) (TimeWithinDay t) = t"
  by (simp add: MakeDate_def Day_def TimeWithinDay_def)

lemma MakeDate_plus_days: "MakeDate (d + n) x = MakeDate d x + n * msPerDay"
  by (simp add: MakeDate_def algebra_simps)

lemma DateUTC_2025_january:
  "DateUTC 2025 0 d h m 0 0 = (20088 + d) * msPerDay + h * msPerHour + m * msPerMinute"
  by (simp add: DateUTC_def MakeDate_def MakeDay_def MakeTime_def DayFromYear_def
      InLeapYear_def monthStart_def)

section \<open>Zones\<close>

lemma offsetAt_fixedZone: "offsetAt (fixedZone off) t = off"
  by (simp add: offsetAt_def fixedZone_def)

lemma LocalTime_fixedZone: "LocalTime (fixedZone off) t = t + off"
  by (simp add: LocalTime_def offsetAt_fixedZone)

lemma possibleInstants_fixedZone: "possibleInstants (fixedZone off) rd = [rd - off]"
  by (simp add: possibleInstants_def offsets_def LocalTime_fixedZone) (simp add: fixedZone_def)

lemma UTC_fixedZone: "UTC (fixedZone off) rd = rd - off"
  by (simp add: UTC_def possibleInstants_fixedZone)

lemma fold_min_in: "fold min us (u::int) \<in> set (u # us)"
proof (induction us arbitrary: u)
  case Nil
  then show ?case by simp
next
  case (Cons a us)
  define m where "m = min a u"
  have "fold min us m \<in> set (m # us)"
    by (rule Cons.IH)
  moreover have "m = a \<or> m = u"
    by (simp add: m_def min_def)
  moreover have "fold min (a # us) u = fold min us m"
    by (simp add: m_def)
  ultimately show ?case by auto
qed

lemma UTC_possible:
  assumes "possibleInstants z rd \<noteq> []"
  shows "UTC z rd \<in> set (possibleInstants z rd)"
proof -
  obtain u us where p: "possibleInstants z rd = u # us"
    using assms by (cases "possibleInstants z rd") auto
  then have "UTC z rd = fold min us u"
    by (simp add: UTC_def)
  with p fold_min_in [of us u] show ?thesis by simp
qed

lemma LocalTime_UTC:
  assumes "possibleInstants z rd \<noteq> []"
  shows "LocalTime z (UTC z rd) = rd"
  using UTC_possible [OF assms] by (simp add: possibleInstants_def)

lemma newDate_fixedZone:
  "newDate (fixedZone off) y mo d h m s ms = DateUTC y mo d h m s ms - off"
  by (simp add: newDate_def DateUTC_def UTC_fixedZone)

section \<open>What the calculator returns, kind by kind\<close>

lemma setHours_9: "setHours z now 9 0 0 0 = localAt z (Day (LocalTime z now)) 9 0"
  by (simp add: setHours_def localAt_def)

lemma setDate_getDate_plus_local:
  "setDate_getDate_plus z d n = UTC z (LocalTime z d + n * msPerDay)"
proof -
  have "MakeDate (Day (LocalTime z d) + n) (TimeWithinDay (LocalTime z d))
      = LocalTime z d + n * msPerDay"
    by (simp add: MakeDate_plus_days Day_TimeWithinDay)
  then show ?thesis
    by (simp add: setDate_getDate_plus_def Let_def)
qed

lemma setDate_getDate_plus_localAt:
  assumes "possibleInstants z (MakeDate d (MakeTime 9 0 0 0)) \<noteq> []"
  shows "setDate_getDate_plus z (localAt z d 9 0) n = localAt z (d + n) 9 0"
proof -
  have "LocalTime z (localAt z d 9 0) = MakeDate d (MakeTime 9 0 0 0)"
    unfolding localAt_def using assms by (rule LocalTime_UTC)
  then show ?thesis
    by (simp add: setDate_getDate_plus_local localAt_def MakeDate_plus_days)
qed

lemma getDay_localAt:
  assumes "possibleInstants z (MakeDate d (MakeTime 9 0 0 0)) \<noteq> []"
  shows "getDay z (localAt z d 9 0) = (d + 4) mod 7"
proof -
  have "LocalTime z (localAt z d 9 0) = MakeDate d (MakeTime 9 0 0 0)"
    unfolding localAt_def using assms by (rule LocalTime_UTC)
  moreover have "Day (MakeDate d (MakeTime 9 0 0 0)) = d"
    by (rule Day_MakeDate) (simp_all add: MakeTime_9 msPerDay_def)
  ultimately show ?thesis
    by (simp add: getDay_def WeekDay_def)
qed

lemma calculateNextRun_hourly:
  "calculateNextRun z ''0 * * * *'' now
     = UTC z ((LocalTime z now div msPerHour + 1) * msPerHour)"
proof -
  have "Day (LocalTime z now) * msPerDay + (HourFromTime (LocalTime z now) + 1) * msPerHour
        = (LocalTime z now div msPerHour + 1) * msPerHour"
    using hour_start [of "LocalTime z now"] by (simp add: algebra_simps)
  then show ?thesis
    by (simp add: calculateNextRun_def setHours_def getHours_def MakeDate_def MakeTime_def)
qed

lemma calculateNextRun_daily:
  assumes "possibleInstants z (MakeDate (Day (LocalTime z now)) (MakeTime 9 0 0 0)) \<noteq> []"
  shows "calculateNextRun z ''0 9 * * *'' now =
     (if now < localAt z (Day (LocalTime z now)) 9 0
      then localAt z (Day (LocalTime z now)) 9 0
      else localAt z (Day (LocalTime z now) + 1) 9 0)"
  by (simp add: calculateNextRun_def Let_def setHours_9 setDate_getDate_plus_localAt [OF assms])

lemma calculateNextRun_weekly:
  assumes "possibleInstants z (MakeDate (Day (LocalTime z now)) (MakeTime 9 0 0 0)) \<noteq> []"
  shows "calculateNextRun z ''0 9 * * 1'' now =
     (if WeekDay (LocalTime z now) = 1 then
        (if now < localAt z (Day (LocalTime z now)) 9 0
         then localAt z (Day (LocalTime z now)) 9 0
         else localAt z (Day (LocalTime z now) + 7) 9 0)
      else localAt z (Day (LocalTime z now)
             + (if WeekDay (LocalTime z now) = 0 then 1 else 8 - WeekDay (LocalTime z now))) 9 0)"
proof -
  let ?w = "WeekDay (LocalTime z now)"
  have "0 \<le> ?w \<and> ?w < 7"
    by (rule WeekDay_range)
  then have m: "?w \<noteq> 0 \<Longrightarrow> ?w \<noteq> 1 \<Longrightarrow> (8 - ?w) mod 7 = 8 - ?w"
    by (simp add: mod_pos_pos_trivial)
  have g: "getDay z (localAt z (Day (LocalTime z now)) 9 0) = ?w"
    by (simp add: getDay_localAt [OF assms] WeekDay_def)
  show ?thesis
    using m
    by (simp add: calculateNextRun_def Let_def setHours_9 g
        setDate_getDate_plus_localAt [OF assms])
qed

lemma calculateNextRun_default:
  "c \<noteq> ''0 * * * *'' \<Longrightarrow> c \<noteq> ''0 9 * * *'' \<Longrightarrow> c \<noteq> ''0 9 * * 1'' \<Longrightarrow>
   calculateNextRun z c now = UTC z (LocalTime z now + msPerDay)"
  by (simp add: calculateNextRun_def setDate_getDate_plus_local)

lemma handleSubmit_hourly:
  "ttl \<noteq> [] \<Longrightarrow> ty \<noteq> [] \<Longrightarrow>
   handleSubmit z ttl ty ''hourly'' customDateTime now =
     Mutate \<lparr>title_new = ttl, type_new = ty, schedule_cron_new = ''0 * * * *'',
             next_run_at_new = calculateNextRun z ''0 * * * *'' now, active_new = True\<rparr>"
  by (simp add: handleSubmit_def calculateNextRun_def)

lemma handleSubmit_daily:
  "ttl \<noteq> [] \<Longrightarrow> ty \<noteq> [] \<Longrightarrow>
   handleSubmit z ttl ty ''daily'' customDateTime now =
     Mutate \<lparr>title_new = ttl, type_new = ty, schedule_cron_new = ''0 9 * * *'',
             next_run_at_new = calculateNextRun z ''0 9 * * *'' now, active_new = True\<rparr>"
  by (simp add: handleSubmit_def calculateNextRun_def Let_def)


lemma handleSubmit_other:
  "ttl \<noteq> [] \<Longrightarrow> ty \<noteq> [] \<Longrightarrow>
   schedule \<notin> {[], ''custom'', ''hourly'', ''daily'', ''weekly''} \<Longrightarrow>
   handleSubmit z ttl ty schedule customDateTime now =
     Mutate \<lparr>title_new = ttl, type_new = ty, schedule_cron_new = ''0 9 * * *'',
             next_run_at_new = UTC z (LocalTime z now + msPerDay), active_new = True\<rparr>"
  by (simp add: handleSubmit_def setDate_getDate_plus_local)

lemma ordinaryReading_fixedZone: "ordinaryReading (fixedZone off) now rd"
  by (simp add: ordinaryReading_def possibleInstants_fixedZone UTC_fixedZone offsetAt_fixedZone)

lemma ordinary_localAt:
  assumes "ordinaryReading z now (MakeDate d (MakeTime 9 0 0 0))"
  shows "localAt z d 9 0 = d * msPerDay + 32400000 - offsetAt z now"
    and "LocalTime z (localAt z d 9 0) = MakeDate d (MakeTime 9 0 0 0)"
proof -
  from assms have e: "possibleInstants z (MakeDate d (MakeTime 9 0 0 0)) \<noteq> []"
    and u: "UTC z (MakeDate d (MakeTime 9 0 0 0)) = MakeDate d (MakeTime 9 0 0 0) - offsetAt z now"
    by (simp_all add: ordinaryReading_def)
  from u show "localAt z d 9 0 = d * msPerDay + 32400000 - offsetAt z now"
    by (simp add: localAt_def MakeDate_def MakeTime_9)
  from e show "LocalTime z (localAt z d 9 0) = MakeDate d (MakeTime 9 0 0 0)"
    unfolding localAt_def by (rule LocalTime_UTC)
qed

lemma local_now: "LocalTime z now = now + offsetAt z now"
  by (simp add: LocalTime_def)

lemma weekly_target:
  assumes "possibleInstants z (MakeDate (Day (LocalTime z now)) (MakeTime 9 0 0 0)) \<noteq> []"
  shows "\<exists>n. 0 \<le> n \<and> n \<le> 7
     \<and> calculateNextRun z ''0 9 * * 1'' now = localAt z (Day (LocalTime z now) + n) 9 0
     \<and> (Day (LocalTime z now) + n + 4) mod 7 = 1
     \<and> (n = 0 \<longrightarrow> now < localAt z (Day (LocalTime z now)) 9 0)
     \<and> (n = 7 \<longrightarrow> localAt z (Day (LocalTime z now)) 9 0 \<le> now)"
proof -
  let ?d = "Day (LocalTime z now)"
  let ?w = "WeekDay (LocalTime z now)"
  let ?r = "calculateNextRun z ''0 9 * * 1'' now"
  have w: "?w = (?d + 4) mod 7"
    by (simp add: WeekDay_def)
  have rng: "0 \<le> ?w \<and> ?w < 7"
    by (rule WeekDay_range)
  consider (today) "?w = 1" "now < localAt z ?d 9 0"
    | (week) "?w = 1" "localAt z ?d 9 0 \<le> now"
    | (sunday) "?w = 0"
    | (other) "?w \<noteq> 1" "?w \<noteq> 0"
    by linarith
  then show ?thesis
  proof cases
    case today
    then have "?r = localAt z (?d + 0) 9 0"
      by (simp add: calculateNextRun_weekly [OF assms])
    moreover have "(?d + 0 + 4) mod 7 = 1"
      using today(1) w by simp
    ultimately show ?thesis
      using today(2) by (intro exI [of _ 0]) simp
  next
    case week
    then have "?r = localAt z (?d + 7) 9 0"
      by (simp add: calculateNextRun_weekly [OF assms])
    moreover have "(?d + 7 + 4) mod 7 = 1"
      using monday_shift [OF w] week(1) by simp
    ultimately show ?thesis
      using week(2) by (intro exI [of _ 7]) simp
  next
    case sunday
    then have "?r = localAt z (?d + 1) 9 0"
      by (simp add: calculateNextRun_weekly [OF assms])
    moreover have "(?d + 1 + 4) mod 7 = 1"
      using sunday w by (intro sunday_shift) simp
    ultimately show ?thesis
      by (intro exI [of _ 1]) simp
  next
    case other
    then have "?r = localAt z (?d + (8 - ?w)) 9 0"
      by (simp add: calculateNextRun_weekly [OF assms])
    moreover have "(?d + (8 - ?w) + 4) mod 7 = 1"
      by (rule monday_shift [OF w])
    moreover have "0 \<le> 8 - ?w \<and> 8 - ?w \<le> 7 \<and> 8 - ?w \<noteq> 0 \<and> 8 - ?w \<noteq> 7"
      using rng other by linarith
    ultimately show ?thesis
      by (intro exI [of _ "8 - ?w"]) simp
  qed
qed

lemma ordinary_today:
  assumes "\<forall>n\<in>{0..7}. ordinaryReading z now
             (MakeDate (Day (LocalTime z now) + n) (MakeTime 9 0 0 0))"
  shows "ordinaryReading z now (MakeDate (Day (LocalTime z now)) (MakeTime 9 0 0 0))"
proof -
  have "(0::int) \<in> {0..7}"
    by simp
  with assms have "ordinaryReading z now (MakeDate (Day (LocalTime z now) + 0) (MakeTime 9 0 0 0))"
    by (rule bspec)
  then show ?thesis by simp
qed

lemma weekly_ordinary:
  assumes H: "\<forall>n\<in>{0..7}. ordinaryReading z now
                (MakeDate (Day (LocalTime z now) + n) (MakeTime 9 0 0 0))"
  shows "now < calculateNextRun z ''0 9 * * 1'' now"
    and "calculateNextRun z ''0 9 * * 1'' now \<le> now + 7 * msPerDay"
    and "\<exists>d. (d + 4) mod 7 = 1
          \<and> calculateNextRun z ''0 9 * * 1'' now = d * msPerDay + 32400000 - offsetAt z now
          \<and> LocalTime z (calculateNextRun z ''0 9 * * 1'' now) = MakeDate d (MakeTime 9 0 0 0)"
proof -
  let ?d = "Day (LocalTime z now)"
  let ?c = "offsetAt z now"
  let ?r = "calculateNextRun z ''0 9 * * 1'' now"
  have H0: "ordinaryReading z now (MakeDate ?d (MakeTime 9 0 0 0))"
    using H by (rule ordinary_today)
  then have E: "possibleInstants z (MakeDate ?d (MakeTime 9 0 0 0)) \<noteq> []"
    by (simp add: ordinaryReading_def)
  obtain n where n: "0 \<le> n" "n \<le> 7" "?r = localAt z (?d + n) 9 0" "(?d + n + 4) mod 7 = 1"
    "n = 0 \<longrightarrow> now < localAt z ?d 9 0" "n = 7 \<longrightarrow> localAt z ?d 9 0 \<le> now"
    using weekly_target [OF E] by blast
  have Hn: "ordinaryReading z now (MakeDate (?d + n) (MakeTime 9 0 0 0))"
    using H n(1,2) by simp
  have r: "?r = (?d + n) * msPerDay + 32400000 - ?c"
    using ordinary_localAt(1) [OF Hn] n(3) by simp
  have t9: "localAt z ?d 9 0 = ?d * msPerDay + 32400000 - ?c"
    by (rule ordinary_localAt(1) [OF H0])
  have b: "?d * msPerDay \<le> now + ?c \<and> now + ?c < ?d * msPerDay + msPerDay"
    using day_bounds [of "LocalTime z now"] by (simp add: local_now)
  have nd: "n * msPerDay \<le> 7 * msPerDay" "n \<noteq> 0 \<Longrightarrow> msPerDay \<le> n * msPerDay"
    "n \<noteq> 7 \<Longrightarrow> n * msPerDay \<le> 6 * msPerDay"
    using n(1,2) by (simp_all add: msPerDay_def)
  show "now < ?r"
  proof (cases "n = 0")
    case True
    with n(3,5) show ?thesis by simp
  next
    case False
    with nd(2) b show ?thesis
      unfolding r by (simp add: algebra_simps msPerDay_def)
  qed
  show "?r \<le> now + 7 * msPerDay"
  proof (cases "n = 7")
    case True
    with n(6) t9 show ?thesis
      unfolding r by (simp add: algebra_simps msPerDay_def)
  next
    case False
    with nd(3) b show ?thesis
      unfolding r by (simp add: algebra_simps msPerDay_def)
  qed
  show "\<exists>d. (d + 4) mod 7 = 1 \<and> ?r = d * msPerDay + 32400000 - ?c
          \<and> LocalTime z ?r = MakeDate d (MakeTime 9 0 0 0)"
    using n(4) r ordinary_localAt(2) [OF Hn] n(3) by (intro exI [of _ "?d + n"]) simp
qed


lemma localAt_fixedZone: "localAt (fixedZone off) d 9 0 = d * msPerDay + 32400000 - off"
  by (simp add: localAt_def UTC_fixedZone MakeDate_def MakeTime_9)

lemma possibleInstants_fixedZone_ne: "possibleInstants (fixedZone off) rd \<noteq> []"
  by (simp add: possibleInstants_fixedZone)

lemma Day_numeral: "0 \<le> x \<Longrightarrow> x < 86400000 \<Longrightarrow> Day (k * 86400000 + x) = k"
  by (simp add: Day_def msPerDay_def div_pos_pos_trivial)

section \<open>The next run time where no transition interferes\<close>

lemma calculateNextRun_after_fixedZone: "now < calculateNextRun (fixedZone off) c now"
proof -
  let ?z = "fixedZone off"
  let ?today = "Day (LocalTime ?z now)"
  have b: "?today * msPerDay \<le> now + off \<and> now + off < ?today * msPerDay + msPerDay"
    using day_bounds [of "LocalTime ?z now"] by (simp add: LocalTime_fixedZone)
  consider "c = ''0 * * * *''" | "c = ''0 9 * * *''" | "c = ''0 9 * * 1''"
    | "c \<noteq> ''0 * * * *''" "c \<noteq> ''0 9 * * *''" "c \<noteq> ''0 9 * * 1''"
    by blast
  then show ?thesis
  proof cases
    case 1
    then show ?thesis
      using hour_bounds [of "now + off"]
      by (simp add: calculateNextRun_hourly UTC_fixedZone LocalTime_fixedZone algebra_simps)
  next
    case 2
    then show ?thesis
      using b
      by (simp add: calculateNextRun_daily [OF possibleInstants_fixedZone_ne] localAt_fixedZone
          algebra_simps msPerDay_def)
  next
    case 3
    have "\<forall>n\<in>{0..7}. ordinaryReading ?z now (MakeDate (?today + n) (MakeTime 9 0 0 0))"
      by (simp add: ordinaryReading_fixedZone)
    with 3 show ?thesis
      by (simp add: weekly_ordinary(1))
  next
    case 4
    then show ?thesis
      by (simp add: calculateNextRun_default UTC_fixedZone LocalTime_fixedZone msPerDay_def)
  qed
qed

lemma calculateNextRun_hourly_fixedZone:
  "LocalTime (fixedZone off) (calculateNextRun (fixedZone off) ''0 * * * *'' now)
     = (LocalTime (fixedZone off) now div msPerHour + 1) * msPerHour
   \<and> now < calculateNextRun (fixedZone off) ''0 * * * *'' now
   \<and> calculateNextRun (fixedZone off) ''0 * * * *'' now \<le> now + msPerHour
   \<and> calculateNextRun (fixedZone off) ''0 * * * *'' (newDate (fixedZone off) 2025 0 1 10 37 0 0)
       = newDate (fixedZone off) 2025 0 1 11 0 0 0"
proof -
  have "(20089 * 86400000 + 10 * 3600000 + 37 * 60000) div 3600000 = (482146::int)"
    by simp
  then have "calculateNextRun (fixedZone off) ''0 * * * *'' (newDate (fixedZone off) 2025 0 1 10 37 0 0)
       = newDate (fixedZone off) 2025 0 1 11 0 0 0"
    by (simp add: calculateNextRun_hourly newDate_fixedZone DateUTC_2025_january UTC_fixedZone
        LocalTime_fixedZone msPerDay_def msPerHour_def msPerMinute_def)
  then show ?thesis
    using hour_bounds [of "now + off"]
    by (simp add: calculateNextRun_hourly UTC_fixedZone LocalTime_fixedZone algebra_simps)
qed

lemma calculateNextRun_hourly_ordinary:
  assumes "ordinaryReading z now ((LocalTime z now div msPerHour + 1) * msPerHour)"
  shows "LocalTime z (calculateNextRun z ''0 * * * *'' now)
           = (LocalTime z now div msPerHour + 1) * msPerHour"
    and "now < calculateNextRun z ''0 * * * *'' now"
    and "calculateNextRun z ''0 * * * *'' now \<le> now + msPerHour"
proof -
  let ?rd = "(LocalTime z now div msPerHour + 1) * msPerHour"
  from assms have e: "possibleInstants z ?rd \<noteq> []"
    and u: "UTC z ?rd = ?rd - offsetAt z now"
    by (simp_all add: ordinaryReading_def)
  from e show "LocalTime z (calculateNextRun z ''0 * * * *'' now) = ?rd"
    by (simp add: calculateNextRun_hourly LocalTime_UTC)
  have r: "calculateNextRun z ''0 * * * *'' now = ?rd - offsetAt z now"
    by (simp only: calculateNextRun_hourly u)
  have b: "LocalTime z now < ?rd \<and> ?rd \<le> LocalTime z now + msPerHour"
    using hour_bounds [of "LocalTime z now"] by (simp add: algebra_simps)
  then show "now < calculateNextRun z ''0 * * * *'' now"
    unfolding r by (simp add: local_now)
  from b show "calculateNextRun z ''0 * * * *'' now \<le> now + msPerHour"
    unfolding r by (simp add: local_now)
qed

section \<open>The next run time\<close>

text \<open>
  C1. The next run time is to be strictly after the reference time, for every kind and
  every reference time. The hourly branch breaks this where the zone repeats two hours
  of the local clock. At Antarctica/Troll on 26 October 2025 the clock goes from 03:00
  back to 01:00 at 01:00Z. At 01:30Z it reads 01:30 for the second time; the branch asks
  for 02:00 of that day, a reading the clock shows twice, and the \<open>Date\<close> takes the first
  of the two instants, 00:00Z, ninety minutes before the reference time. The reminder
  form computes the same value and submits it.
\<close>

theorem next_run_before_now_at_fall_back:
  "calculateNextRun troll ''0 * * * *'' (DateUTC 2025 9 26 1 30 0 0) = DateUTC 2025 9 26 0 0 0 0
   \<and> calculateNextRun troll ''0 * * * *'' (DateUTC 2025 9 26 1 30 0 0)
       < DateUTC 2025 9 26 1 30 0 0
   \<and> handleSubmit troll ''Tea'' ''meal'' ''hourly'' None (DateUTC 2025 9 26 1 30 0 0)
       = Mutate \<lparr>title_new = ''Tea'', type_new = ''meal'', schedule_cron_new = ''0 * * * *'',
                  next_run_at_new = DateUTC 2025 9 26 0 0 0 0, active_new = True\<rparr>"
  by code_simp

text \<open>
  C2. For the hourly kind the next run time is to be the start of the hour that follows
  the reference time. At Antarctica/Troll at 01:30Z on 26 October 2025 (local hour 1)
  that is 02:00Z, thirty minutes later, local hour 2 with minutes, seconds and
  milliseconds zero; the calculator returns the instant two hours before it. At
  America/New_York at 05:30Z on 2 November 2025 (01:30, daylight time) the calculator
  returns the instant ninety minutes later and passes over the hour that starts at
  06:00Z (01:00, standard time).
\<close>

theorem hourly_next_run_not_next_hour_start_at_fall_back:
  "getHours troll (DateUTC 2025 9 26 1 30 0 0) = 1
   \<and> DateUTC 2025 9 26 1 30 0 0 < DateUTC 2025 9 26 2 0 0 0
   \<and> DateUTC 2025 9 26 2 0 0 0 \<le> DateUTC 2025 9 26 1 30 0 0 + msPerHour
   \<and> HourFromTime (LocalTime troll (DateUTC 2025 9 26 2 0 0 0)) = 2
   \<and> MinFromTime (LocalTime troll (DateUTC 2025 9 26 2 0 0 0)) = 0
   \<and> SecFromTime (LocalTime troll (DateUTC 2025 9 26 2 0 0 0)) = 0
   \<and> msFromTime (LocalTime troll (DateUTC 2025 9 26 2 0 0 0)) = 0
   \<and> calculateNextRun troll ''0 * * * *'' (DateUTC 2025 9 26 1 30 0 0)
       = DateUTC 2025 9 26 2 0 0 0 - 2 * msPerHour
   \<and> calculateNextRun newYork ''0 * * * *'' (DateUTC 2025 10 2 5 30 0 0)
       = DateUTC 2025 10 2 5 30 0 0 + 90 * msPerMinute
   \<and> DateUTC 2025 10 2 5 30 0 0 < DateUTC 2025 10 2 6 0 0 0
   \<and> DateUTC 2025 10 2 6 0 0 0 < calculateNextRun newYork ''0 * * * *'' (DateUTC 2025 10 2 5 30 0 0)
   \<and> MinFromTime (LocalTime newYork (DateUTC 2025 10 2 6 0 0 0)) = 0
   \<and> SecFromTime (LocalTime newYork (DateUTC 2025 10 2 6 0 0 0)) = 0
   \<and> msFromTime (LocalTime newYork (DateUTC 2025 10 2 6 0 0 0)) = 0"
  by code_simp

text \<open>
  C3. The calculator has one daily kind, daily at 09:00 (\<open>'0 9 * * *'\<close>). For it, on a
  day whose 09:00 exists on the local clock, the next run time is today at 09:00:00.000
  when that instant is strictly after the reference time, and tomorrow at 09:00:00.000
  otherwise, each as the \<open>Date\<close> takes it in the zone. The reminder form submits the same
  value. In a zone whose offset never changes, 2025-01-01T07:00:00 gives
  2025-01-01T09:00:00 and 2025-01-01T09:30:00 gives 2025-01-02T09:00:00.
\<close>

theorem daily_next_run_today_or_tomorrow:
  assumes "possibleInstants z (MakeDate (Day (LocalTime z now)) (MakeTime 9 0 0 0)) \<noteq> []"
  shows "calculateNextRun z ''0 9 * * *'' now =
       (if now < localAt z (Day (LocalTime z now)) 9 0
        then localAt z (Day (LocalTime z now)) 9 0
        else localAt z (Day (LocalTime z now) + 1) 9 0)
     \<and> LocalTime z (localAt z (Day (LocalTime z now)) 9 0)
         = MakeDate (Day (LocalTime z now)) (MakeTime 9 0 0 0)
     \<and> (possibleInstants z (MakeDate (Day (LocalTime z now) + 1) (MakeTime 9 0 0 0)) \<noteq> [] \<longrightarrow>
          LocalTime z (localAt z (Day (LocalTime z now) + 1) 9 0)
            = MakeDate (Day (LocalTime z now) + 1) (MakeTime 9 0 0 0))
     \<and> (ttl \<noteq> [] \<and> ty \<noteq> [] \<longrightarrow>
          handleSubmit z ttl ty ''daily'' customDateTime now =
            Mutate \<lparr>title_new = ttl, type_new = ty, schedule_cron_new = ''0 9 * * *'',
                    next_run_at_new = calculateNextRun z ''0 9 * * *'' now, active_new = True\<rparr>)
     \<and> calculateNextRun (fixedZone off) ''0 9 * * *'' (newDate (fixedZone off) 2025 0 1 7 0 0 0)
         = newDate (fixedZone off) 2025 0 1 9 0 0 0
     \<and> calculateNextRun (fixedZone off) ''0 9 * * *'' (newDate (fixedZone off) 2025 0 1 9 30 0 0)
         = newDate (fixedZone off) 2025 0 2 9 0 0 0"
proof -
  have today: "LocalTime z (localAt z (Day (LocalTime z now)) 9 0)
      = MakeDate (Day (LocalTime z now)) (MakeTime 9 0 0 0)"
    unfolding localAt_def using assms by (rule LocalTime_UTC)
  have tomorrow: "possibleInstants z (MakeDate (Day (LocalTime z now) + 1) (MakeTime 9 0 0 0)) \<noteq> [] \<longrightarrow>
      LocalTime z (localAt z (Day (LocalTime z now) + 1) 9 0)
        = MakeDate (Day (LocalTime z now) + 1) (MakeTime 9 0 0 0)"
    unfolding localAt_def by (simp add: LocalTime_UTC)
  have client: "ttl \<noteq> [] \<and> ty \<noteq> [] \<longrightarrow>
      handleSubmit z ttl ty ''daily'' customDateTime now =
        Mutate \<lparr>title_new = ttl, type_new = ty, schedule_cron_new = ''0 9 * * *'',
                next_run_at_new = calculateNextRun z ''0 9 * * *'' now, active_new = True\<rparr>"
    by (simp add: handleSubmit_daily)
  have d1: "Day (20089 * 86400000 + 7 * 3600000) = 20089"
    "Day (20089 * 86400000 + 9 * 3600000 + 30 * 60000) = 20089"
    using Day_numeral [of "7 * 3600000" 20089] Day_numeral [of "9 * 3600000 + 30 * 60000" 20089]
    by simp_all
  have s1: "calculateNextRun (fixedZone off) ''0 9 * * *'' (newDate (fixedZone off) 2025 0 1 7 0 0 0)
      = newDate (fixedZone off) 2025 0 1 9 0 0 0"
    using d1
    by (simp add: calculateNextRun_daily [OF possibleInstants_fixedZone_ne] newDate_fixedZone
        DateUTC_2025_january localAt_fixedZone LocalTime_fixedZone
        msPerDay_def msPerHour_def msPerMinute_def)
  have s2: "calculateNextRun (fixedZone off) ''0 9 * * *'' (newDate (fixedZone off) 2025 0 1 9 30 0 0)
      = newDate (fixedZone off) 2025 0 2 9 0 0 0"
    using d1
    by (simp add: calculateNextRun_daily [OF possibleInstants_fixedZone_ne] newDate_fixedZone
        DateUTC_2025_january localAt_fixedZone LocalTime_fixedZone
        msPerDay_def msPerHour_def msPerMinute_def)
  from calculateNextRun_daily [OF assms] today tomorrow client s1 s2 show ?thesis
    by blast
qed

theorem daily_next_run_today_or_tomorrow_witness:
  "possibleInstants newYork
       (MakeDate (Day (LocalTime newYork (DateUTC 2025 2 8 15 0 0 0))) (MakeTime 9 0 0 0)) \<noteq> []
   \<and> LocalTime newYork (DateUTC 2025 2 8 15 0 0 0) = DateUTC 2025 2 8 10 0 0 0
   \<and> localAt newYork (Day (LocalTime newYork (DateUTC 2025 2 8 15 0 0 0))) 9 0
       = DateUTC 2025 2 8 14 0 0 0
   \<and> calculateNextRun newYork ''0 9 * * *'' (DateUTC 2025 2 8 15 0 0 0) = DateUTC 2025 2 9 13 0 0 0
   \<and> LocalTime newYork (DateUTC 2025 2 9 13 0 0 0) = DateUTC 2025 2 9 9 0 0 0
   \<and> handleSubmit newYork ''Pill'' ''medication'' ''daily'' None (DateUTC 2025 2 8 15 0 0 0)
       = Mutate \<lparr>title_new = ''Pill'', type_new = ''medication'',
                  schedule_cron_new = ''0 9 * * *'',
                  next_run_at_new = DateUTC 2025 2 9 13 0 0 0, active_new = True\<rparr>"
proof -
  have h: "possibleInstants newYork
       (MakeDate (Day (LocalTime newYork (DateUTC 2025 2 8 15 0 0 0))) (MakeTime 9 0 0 0)) \<noteq> []"
    by code_simp
  have v: "LocalTime newYork (DateUTC 2025 2 8 15 0 0 0) = DateUTC 2025 2 8 10 0 0 0"
    "localAt newYork (Day (LocalTime newYork (DateUTC 2025 2 8 15 0 0 0))) 9 0
       = DateUTC 2025 2 8 14 0 0 0"
    "localAt newYork (Day (LocalTime newYork (DateUTC 2025 2 8 15 0 0 0)) + 1) 9 0
       = DateUTC 2025 2 9 13 0 0 0"
    "LocalTime newYork (DateUTC 2025 2 9 13 0 0 0) = DateUTC 2025 2 9 9 0 0 0"
    "\<not> DateUTC 2025 2 8 15 0 0 0 < DateUTC 2025 2 8 14 0 0 0"
    by code_simp+
  from daily_next_run_today_or_tomorrow [OF h, of "''Pill''" "''medication''" None 0] h v
  show ?thesis by simp
qed

text \<open>
  A daily time other than 09:00 has no kind of its own: the cron string for daily at
  08:30 takes the fallback, and at 07:00 gives 07:00 of the next day, not 08:30 of today.
\<close>

theorem daily_other_time_counterexample:
  "DateUTC 2025 0 1 7 0 0 0 < DateUTC 2025 0 1 8 30 0 0
   \<and> calculateNextRun (fixedZone 0) ''30 8 * * *'' (DateUTC 2025 0 1 7 0 0 0)
       \<noteq> DateUTC 2025 0 1 8 30 0 0
   \<and> calculateNextRun (fixedZone 0) ''30 8 * * *'' (DateUTC 2025 0 1 7 0 0 0)
       = DateUTC 2025 0 2 7 0 0 0"
  by code_simp




text \<open>
  C5. A cron string that is none of the three known kinds takes the fallback: the next
  run time is the reference time plus one calendar day, that is the instant the \<open>Date\<close>
  takes for the same reading of the clock on the next local day. When that reading
  exists the result is on the next local day at the same time of day; when it is an
  ordinary reading, and in every zone whose offset never changes, the result is 24 hours
  after the reference time. The branch only calls \<open>Date\<close> setters and getters, which do
  not throw, so the calculator has no failing outcome; and the reminder form, for a
  schedule it does not know, neither returns early nor shows an error but submits that
  next run time.
\<close>

theorem unknown_kind_advances_one_day:
  assumes "scheduleCron \<notin> {''0 * * * *'', ''0 9 * * *'', ''0 9 * * 1''}"
  shows "calculateNextRun z scheduleCron now
         = UTC z (MakeDate (Day (LocalTime z now) + 1) (TimeWithinDay (LocalTime z now)))
     \<and> (possibleInstants z
           (MakeDate (Day (LocalTime z now) + 1) (TimeWithinDay (LocalTime z now))) \<noteq> [] \<longrightarrow>
          Day (LocalTime z (calculateNextRun z scheduleCron now)) = Day (LocalTime z now) + 1
        \<and> TimeWithinDay (LocalTime z (calculateNextRun z scheduleCron now))
            = TimeWithinDay (LocalTime z now))
     \<and> (ordinaryReading z now
           (MakeDate (Day (LocalTime z now) + 1) (TimeWithinDay (LocalTime z now))) \<longrightarrow>
          calculateNextRun z scheduleCron now = now + msPerDay)
     \<and> calculateNextRun (fixedZone off) scheduleCron now = now + msPerDay
     \<and> (ttl \<noteq> [] \<and> ty \<noteq> [] \<and> schedule \<notin> {[], ''custom'', ''hourly'', ''daily'', ''weekly''} \<longrightarrow>
          handleSubmit z ttl ty schedule customDateTime now =
            Mutate \<lparr>title_new = ttl, type_new = ty, schedule_cron_new = ''0 9 * * *'',
                    next_run_at_new =
                      UTC z (MakeDate (Day (LocalTime z now) + 1) (TimeWithinDay (LocalTime z now))),
                    active_new = True\<rparr>)"
proof -
  let ?rd = "MakeDate (Day (LocalTime z now) + 1) (TimeWithinDay (LocalTime z now))"
  let ?r = "calculateNextRun z scheduleCron now"
  have rd: "?rd = LocalTime z now + msPerDay"
    by (simp add: MakeDate_plus_days Day_TimeWithinDay)
  have r: "?r = UTC z ?rd"
    using assms by (simp add: calculateNextRun_default rd)
  have fields: "possibleInstants z ?rd \<noteq> [] \<longrightarrow>
      Day (LocalTime z ?r) = Day (LocalTime z now) + 1
      \<and> TimeWithinDay (LocalTime z ?r) = TimeWithinDay (LocalTime z now)"
  proof
    assume "possibleInstants z ?rd \<noteq> []"
    then have "LocalTime z ?r = LocalTime z now + 1 * msPerDay"
      unfolding r by (simp add: LocalTime_UTC rd)
    then show "Day (LocalTime z ?r) = Day (LocalTime z now) + 1
      \<and> TimeWithinDay (LocalTime z ?r) = TimeWithinDay (LocalTime z now)"
      by (simp add: Day_def TimeWithinDay_def msPerDay_def)
  qed
  have plain: "ordinaryReading z now ?rd \<longrightarrow> ?r = now + msPerDay"
  proof
    assume "ordinaryReading z now ?rd"
    then have "UTC z ?rd = ?rd - offsetAt z now"
      by (simp only: ordinaryReading_def)
    also have "\<dots> = now + msPerDay"
      by (simp only: rd) (simp add: LocalTime_def)
    finally show "?r = now + msPerDay"
      by (simp only: r)
  qed
  have fixed: "calculateNextRun (fixedZone off) scheduleCron now = now + msPerDay"
    using assms by (simp add: calculateNextRun_default UTC_fixedZone LocalTime_fixedZone)
  have client: "ttl \<noteq> [] \<and> ty \<noteq> [] \<and> schedule \<notin> {[], ''custom'', ''hourly'', ''daily'', ''weekly''} \<longrightarrow>
      handleSubmit z ttl ty schedule customDateTime now =
        Mutate \<lparr>title_new = ttl, type_new = ty, schedule_cron_new = ''0 9 * * *'',
                next_run_at_new = UTC z ?rd, active_new = True\<rparr>"
    by (simp add: handleSubmit_other rd)
  from r fields plain fixed client show ?thesis
    by blast
qed

theorem unknown_kind_advances_one_day_witness:
  "''*/5 * * * *'' \<notin> {''0 * * * *'', ''0 9 * * *'', ''0 9 * * 1''}
   \<and> possibleInstants newYork
        (MakeDate (Day (LocalTime newYork (DateUTC 2025 2 8 15 0 0 0)) + 1)
           (TimeWithinDay (LocalTime newYork (DateUTC 2025 2 8 15 0 0 0)))) \<noteq> []
   \<and> LocalTime newYork (DateUTC 2025 2 8 15 0 0 0) = DateUTC 2025 2 8 10 0 0 0
   \<and> calculateNextRun newYork ''*/5 * * * *'' (DateUTC 2025 2 8 15 0 0 0)
       = DateUTC 2025 2 9 14 0 0 0
   \<and> LocalTime newYork (DateUTC 2025 2 9 14 0 0 0) = DateUTC 2025 2 9 10 0 0 0
   \<and> DateUTC 2025 2 9 14 0 0 0 = DateUTC 2025 2 8 15 0 0 0 + 23 * msPerHour
   \<and> ordinaryReading newYork (DateUTC 2025 0 1 15 37 0 0)
        (MakeDate (Day (LocalTime newYork (DateUTC 2025 0 1 15 37 0 0)) + 1)
           (TimeWithinDay (LocalTime newYork (DateUTC 2025 0 1 15 37 0 0))))
   \<and> calculateNextRun newYork ''*/5 * * * *'' (DateUTC 2025 0 1 15 37 0 0)
       = DateUTC 2025 0 2 15 37 0 0
   \<and> handleSubmit newYork ''Tea'' ''meal'' ''monthly'' None (DateUTC 2025 2 8 15 0 0 0)
       = Mutate \<lparr>title_new = ''Tea'', type_new = ''meal'', schedule_cron_new = ''0 9 * * *'',
                  next_run_at_new = DateUTC 2025 2 9 14 0 0 0, active_new = True\<rparr>"
proof -
  let ?a = "DateUTC 2025 2 8 15 0 0 0"
  let ?b = "DateUTC 2025 0 1 15 37 0 0"
  have c: "''*/5 * * * *'' \<notin> {''0 * * * *'', ''0 9 * * *'', ''0 9 * * 1''}"
    by simp
  have s: "''Tea'' \<noteq> [] \<and> ''meal'' \<noteq> []
      \<and> ''monthly'' \<notin> {[], ''custom'', ''hourly'', ''daily'', ''weekly''}"
    by simp
  have e: "possibleInstants newYork
        (MakeDate (Day (LocalTime newYork ?a) + 1) (TimeWithinDay (LocalTime newYork ?a))) \<noteq> []"
    by code_simp
  have o: "ordinaryReading newYork ?b
        (MakeDate (Day (LocalTime newYork ?b) + 1) (TimeWithinDay (LocalTime newYork ?b)))"
    by code_simp
  have v: "LocalTime newYork ?a = DateUTC 2025 2 8 10 0 0 0"
    "UTC newYork (MakeDate (Day (LocalTime newYork ?a) + 1) (TimeWithinDay (LocalTime newYork ?a)))
       = DateUTC 2025 2 9 14 0 0 0"
    "LocalTime newYork (DateUTC 2025 2 9 14 0 0 0) = DateUTC 2025 2 9 10 0 0 0"
    "DateUTC 2025 2 9 14 0 0 0 = ?a + 23 * msPerHour"
    "?b + msPerDay = DateUTC 2025 0 2 15 37 0 0"
    by code_simp+
  from unknown_kind_advances_one_day [OF c, of newYork ?a 0 "''Tea''" "''meal''" "''monthly''" None]
    unknown_kind_advances_one_day [OF c, of newYork ?b 0 "''Tea''" "''meal''" "''monthly''" None]
    c s e o v
  show ?thesis by simp
qed

section \<open>The store: due reminders and their update\<close>

lemma length_markFired: "length (markFired i x tbl) = length tbl"
  by (cases x) (simp_all add: markFired_def update_set_active_def update_set_next_run_at_def)

lemma nth_markFired_Some:
  "k < length tbl \<Longrightarrow> markFired i (Some n) tbl ! k =
     (if id_rem (tbl ! k) = i then (tbl ! k)\<lparr>next_run_at := n\<rparr> else tbl ! k)"
  by (simp add: markFired_def update_set_next_run_at_def)

lemma nth_markFired_None:
  "k < length tbl \<Longrightarrow> markFired i None tbl ! k =
     (if id_rem (tbl ! k) = i then (tbl ! k)\<lparr>active := False\<rparr> else tbl ! k)"
  by (simp add: markFired_def update_set_active_def)

lemma fst_fire_once:
  "schedule_cron r = ''once'' \<Longrightarrow> fst (fire z now r st) = markFired (id_rem r) None (fst st)"
  by (simp add: fire_def markFired_def Let_def)

lemma due_after_markFired:
  assumes "case x of None \<Rightarrow> True | Some n \<Rightarrow> now < n"
  shows "set (dueReminders now (markFired i x tbl))
           \<subseteq> {y \<in> set (dueReminders now tbl). id_rem y \<noteq> i}"
proof (cases x)
  case None
  then show ?thesis
    by (auto simp: dueReminders_def markFired_def update_set_active_def split: if_splits)
next
  case (Some n)
  with assms have "now < n" by simp
  with Some show ?thesis
    by (auto simp: dueReminders_def markFired_def update_set_next_run_at_def split: if_splits)
qed

lemma fire_outcome:
  "fst (fire z now r st) =
     markFired (id_rem r)
       (if schedule_cron r = ''once'' \<or> schedule_cron r = ''custom'' then None
        else Some (calculateNextRun z (schedule_cron r) now))
       (fst st)"
  by (simp add: fire_def markFired_def Let_def)

lemma due_after_fire:
  assumes "schedule_cron r = ''once'' \<or> schedule_cron r = ''custom''
           \<or> now < calculateNextRun z (schedule_cron r) now"
  shows "set (dueReminders now (fst (fire z now r st)))
           \<subseteq> {y \<in> set (dueReminders now (fst st)). id_rem y \<noteq> id_rem r}"
proof -
  have "case (if schedule_cron r = ''once'' \<or> schedule_cron r = ''custom'' then None
              else Some (calculateNextRun z (schedule_cron r) now))
        of None \<Rightarrow> True | Some n \<Rightarrow> now < n"
    using assms by auto
  then show ?thesis
    unfolding fire_outcome by (rule due_after_markFired)
qed

text \<open>
  C6. For the row at any position \<open>k\<close> of the table whose id is \<open>i\<close>: \<open>markFired\<close> with
  a new run time sets \<open>next_run_at\<close> to it and changes nothing else of the row, so
  \<open>active\<close> stays as it was (true for a row that was due); \<open>markFired\<close> with no new
  run time sets \<open>active\<close> to false and changes nothing else, so \<open>next_run_at\<close> is
  unchanged. Rows with another id are left as they were and no row is added or removed.
  Consequently a \<open>once\<close> reminder that the loop fires ends inactive with its
  \<open>next_run_at\<close> unchanged.
\<close>

theorem markFired_sets_next_run_or_deactivates:
  assumes "k < length tbl" and "id_rem (tbl ! k) = i"
  shows "markFired i (Some newNextRunAt) tbl ! k = (tbl ! k)\<lparr>next_run_at := newNextRunAt\<rparr>
     \<and> next_run_at (markFired i (Some newNextRunAt) tbl ! k) = newNextRunAt
     \<and> active (markFired i (Some newNextRunAt) tbl ! k) = active (tbl ! k)
     \<and> markFired i None tbl ! k = (tbl ! k)\<lparr>active := False\<rparr>
     \<and> active (markFired i None tbl ! k) = False
     \<and> next_run_at (markFired i None tbl ! k) = next_run_at (tbl ! k)
     \<and> length (markFired i x tbl) = length tbl
     \<and> (\<forall>j < length tbl. id_rem (tbl ! j) \<noteq> i \<longrightarrow> markFired i x tbl ! j = tbl ! j)
     \<and> (schedule_cron (tbl ! k) = ''once'' \<longrightarrow>
          active (fst (fire z now (tbl ! k) (tbl, evs)) ! k) = False
        \<and> next_run_at (fst (fire z now (tbl ! k) (tbl, evs)) ! k) = next_run_at (tbl ! k))"
proof -
  have frame: "\<forall>j < length tbl. id_rem (tbl ! j) \<noteq> i \<longrightarrow> markFired i x tbl ! j = tbl ! j"
    by (cases x) (simp_all add: nth_markFired_Some nth_markFired_None)
  have once: "schedule_cron (tbl ! k) = ''once'' \<longrightarrow>
          active (fst (fire z now (tbl ! k) (tbl, evs)) ! k) = False
        \<and> next_run_at (fst (fire z now (tbl ! k) (tbl, evs)) ! k) = next_run_at (tbl ! k)"
    using assms(1) by (simp add: fst_fire_once nth_markFired_None)
  from assms frame once show ?thesis
    by (simp add: nth_markFired_Some nth_markFired_None length_markFired)
qed

theorem markFired_sets_next_run_or_deactivates_witness:
  "(0::nat) < length [pill, walk] \<and> id_rem ([pill, walk] ! 0) = 1
   \<and> schedule_cron ([pill, walk] ! 0) = ''once''
   \<and> next_run_at (markFired 1 (Some 5000) [pill, walk] ! 0) = 5000
   \<and> active (markFired 1 (Some 5000) [pill, walk] ! 0) = True
   \<and> active (markFired 1 None [pill, walk] ! 0) = False
   \<and> next_run_at (markFired 1 None [pill, walk] ! 0) = 1000
   \<and> markFired 1 None [pill, walk] ! 1 = walk
   \<and> active (fst (fire (fixedZone 0) 1500 pill ([pill, walk], [])) ! 0) = False
   \<and> next_run_at (fst (fire (fixedZone 0) 1500 pill ([pill, walk], [])) ! 0) = 1000"
  using markFired_sets_next_run_or_deactivates [where k = 0 and tbl = "[pill, walk]" and i = 1
      and newNextRunAt = 5000 and x = None and z = "fixedZone 0" and now = 1500 and evs = "[]"]
  by (simp add: pill_def walk_def)

text \<open>
  C7. \<open>listDue\<close> returns exactly the rows that are active and whose \<open>next_run_at\<close> is
  at or before \<open>asOf\<close>, in table order. A row due exactly at \<open>asOf\<close> is included, and
  an inactive row is never returned, whatever its \<open>next_run_at\<close>.
\<close>

theorem listDue_exactly_active_and_due:
  "set (fst (listDue asOf tbl)) = {r \<in> set tbl. active r \<and> next_run_at r \<le> asOf}
   \<and> fst (listDue asOf tbl) = filter (\<lambda>r. active r \<and> next_run_at r \<le> asOf) tbl
   \<and> (r \<in> set tbl \<and> active r \<and> next_run_at r = asOf \<longrightarrow> r \<in> set (fst (listDue asOf tbl)))
   \<and> (\<not> active r \<longrightarrow> r \<notin> set (fst (listDue asOf tbl)))"
  by (auto simp: listDue_def dueReminders_def)

theorem listDue_exactly_active_and_due_witness:
  "pill \<in> set [pill, walk\<lparr>active := False\<rparr>] \<and> active pill \<and> next_run_at pill = 1000
   \<and> pill \<in> set (fst (listDue 1000 [pill, walk\<lparr>active := False\<rparr>]))
   \<and> \<not> active (walk\<lparr>active := False\<rparr>)
   \<and> walk\<lparr>active := False\<rparr> \<notin> set (fst (listDue 5000 [pill, walk\<lparr>active := False\<rparr>]))
   \<and> fst (listDue 5000 [pill, walk\<lparr>active := False\<rparr>]) = [pill]"
  using listDue_exactly_active_and_due [where asOf = 1000 and tbl = "[pill, walk\<lparr>active := False\<rparr>]"
      and r = pill]
    listDue_exactly_active_and_due [where asOf = 5000 and tbl = "[pill, walk\<lparr>active := False\<rparr>]"
      and r = "walk\<lparr>active := False\<rparr>"]
  by (simp add: pill_def walk_def)

text \<open>
  C8. A reminder that a tick has fired is not to be returned again by \<open>listDue\<close> at the
  same \<open>now\<close>. That holds whenever the update deactivates the row or sets a run time
  after \<open>now\<close> (lemmas \<open>due_after_markFired\<close> and \<open>due_after_fire\<close>), and a select
  leaves the table as it was. It fails for the hourly reminder at Antarctica/Troll at 01:30Z on 26 October
  2025: the loop writes the run time 00:00Z, which is not after \<open>now\<close>, and the row
  is due again at the same \<open>now\<close>, after the single firing and after the whole tick.
\<close>

theorem fired_hourly_row_still_due_at_fall_back:
  "walk \<in> set (fst (listDue (DateUTC 2025 9 26 1 30 0 0) [pill, walk]))
   \<and> fst (fire troll (DateUTC 2025 9 26 1 30 0 0) walk ([pill, walk], []))
       = [pill, walk\<lparr>next_run_at := DateUTC 2025 9 26 0 0 0 0\<rparr>]
   \<and> fst (listDue (DateUTC 2025 9 26 1 30 0 0)
            (fst (fire troll (DateUTC 2025 9 26 1 30 0 0) walk ([pill, walk], []))))
       = [pill, walk\<lparr>next_run_at := DateUTC 2025 9 26 0 0 0 0\<rparr>]
   \<and> fst (tick troll (DateUTC 2025 9 26 1 30 0 0) [pill, walk])
       = [pill\<lparr>active := False\<rparr>, walk\<lparr>next_run_at := DateUTC 2025 9 26 0 0 0 0\<rparr>]
   \<and> fst (listDue (DateUTC 2025 9 26 1 30 0 0)
            (fst (tick troll (DateUTC 2025 9 26 1 30 0 0) [pill, walk])))
       = [walk\<lparr>next_run_at := DateUTC 2025 9 26 0 0 0 0\<rparr>]"
  by code_simp

section \<open>Similarity of signatures and the matches found\<close>

lemma shared_length:
  assumes "distinct xs"
  shows "length (filter (\<lambda>obj. obj \<in> set ys) xs) = card (set xs \<inter> set ys)"
proof -
  have "card (set (filter (\<lambda>obj. obj \<in> set ys) xs)) = length (filter (\<lambda>obj. obj \<in> set ys) xs)"
    by (rule distinct_card) (simp add: assms)
  moreover have "set (filter (\<lambda>obj. obj \<in> set ys) xs) = set xs \<inter> set ys"
    by auto
  ultimately show ?thesis by simp
qed

lemma total_length: "length (remdups (xs @ ys)) = card (set xs \<union> set ys)"
  by (simp add: length_remdups_card_conv)

lemma ratio_range:
  fixes m n :: nat
  assumes "m \<le> n"
  shows "0 \<le> real m / real n \<and> real m / real n \<le> 1"
proof (cases "n = 0")
  case True
  then show ?thesis by simp
next
  case False
  with assms show ?thesis by (simp add: divide_le_eq_1)
qed

lemma objectSimilarity_range:
  assumes "distinct xs"
  shows "0 \<le> real (length (filter (\<lambda>obj. obj \<in> set ys) xs)) / real (length (remdups (xs @ ys)))
     \<and> real (length (filter (\<lambda>obj. obj \<in> set ys) xs)) / real (length (remdups (xs @ ys))) \<le> 1"
proof -
  have "card (set xs \<inter> set ys) \<le> card (set xs \<union> set ys)"
    by (rule card_mono) auto
  then show ?thesis
    unfolding shared_length [OF assms] total_length by (rule ratio_range)
qed

lemma objectCountSimilarity_range:
  fixes a b :: real
  assumes "0 \<le> a" "0 \<le> b"
  shows "0 \<le> 1 - \<bar>a - b\<bar> / max (max a b) 1 \<and> 1 - \<bar>a - b\<bar> / max (max a b) 1 \<le> 1"
proof -
  have pos: "0 < max (max a b) 1"
    by simp
  have "\<bar>a - b\<bar> \<le> max (max a b) 1"
    using assms by (simp add: max_def abs_if)
  then have "\<bar>a - b\<bar> / max (max a b) 1 \<le> 1"
    using pos by (simp add: divide_le_eq_1)
  moreover have "0 \<le> \<bar>a - b\<bar> / max (max a b) 1"
    using pos by simp
  ultimately show ?thesis by simp
qed

lemma weighted_range:
  fixes p q :: real
  assumes "0 \<le> p \<and> p \<le> 1" "0 \<le> q \<and> q \<le> 1"
  shows "0 \<le> p * 0.7 + q * 0.3 \<and> p * 0.7 + q * 0.3 \<le> 1"
  using assms by simp

lemma calculateSimilarity_unfold:
  "calculateSimilarity sig1 sig2 =
     (if length (remdups (dominantObjects sig1 @ dominantObjects sig2)) = 0 then 0
      else real (length (filter (\<lambda>obj. obj \<in> set (dominantObjects sig2)) (dominantObjects sig1)))
             / real (length (remdups (dominantObjects sig1 @ dominantObjects sig2))) * 0.7
           + (1 - \<bar>objectCount sig1 - objectCount sig2\<bar>
                    / max (max (objectCount sig1) (objectCount sig2)) 1) * 0.3)"
  by (simp only: calculateSimilarity_def Let_def)

lemma calculateSimilarity_range:
  assumes "distinct (dominantObjects sig1)" "0 \<le> objectCount sig1" "0 \<le> objectCount sig2"
  shows "0 \<le> calculateSimilarity sig1 sig2 \<and> calculateSimilarity sig1 sig2 \<le> 1"
proof (cases "length (remdups (dominantObjects sig1 @ dominantObjects sig2)) = 0")
  case True
  then have "calculateSimilarity sig1 sig2 = 0"
    by (simp add: calculateSimilarity_unfold)
  then show ?thesis by simp
next
  case False
  then have "calculateSimilarity sig1 sig2 =
      real (length (filter (\<lambda>obj. obj \<in> set (dominantObjects sig2)) (dominantObjects sig1)))
        / real (length (remdups (dominantObjects sig1 @ dominantObjects sig2))) * 0.7
      + (1 - \<bar>objectCount sig1 - objectCount sig2\<bar>
              / max (max (objectCount sig1) (objectCount sig2)) 1) * 0.3"
    by (simp only: calculateSimilarity_unfold if_False)
  then show ?thesis
    using weighted_range [OF objectSimilarity_range [OF assms(1), of "dominantObjects sig2"]
        objectCountSimilarity_range [OF assms(2,3)]]
    by (simp only:)
qed

lemma calculateSimilarity_commute:
  assumes "distinct (dominantObjects sig1)" "distinct (dominantObjects sig2)"
  shows "calculateSimilarity sig1 sig2 = calculateSimilarity sig2 sig1"
proof -
  have "length (filter (\<lambda>obj. obj \<in> set (dominantObjects sig2)) (dominantObjects sig1))
      = length (filter (\<lambda>obj. obj \<in> set (dominantObjects sig1)) (dominantObjects sig2))"
    by (simp only: shared_length assms Int_commute)
  moreover have "length (remdups (dominantObjects sig1 @ dominantObjects sig2))
      = length (remdups (dominantObjects sig2 @ dominantObjects sig1))"
    by (simp only: total_length Un_commute)
  moreover have "\<bar>objectCount sig1 - objectCount sig2\<bar> = \<bar>objectCount sig2 - objectCount sig1\<bar>"
    by (rule abs_minus_commute)
  moreover have "max (objectCount sig1) (objectCount sig2)
      = max (objectCount sig2) (objectCount sig1)"
    by (rule max.commute)
  ultimately show ?thesis
    by (simp only: calculateSimilarity_unfold)
qed

lemma calculateSimilarity_empty:
  "dominantObjects sig1 = [] \<Longrightarrow> dominantObjects sig2 = [] \<Longrightarrow> calculateSimilarity sig1 sig2 = 0"
  by (simp add: calculateSimilarity_unfold)

lemma findMatches_length: "length (findMatches newSignature storedSignatures) \<le> 3"
  by (simp add: findMatches_def)

lemma findMatches_threshold:
  "m \<in> set (findMatches newSignature storedSignatures) \<Longrightarrow> 0.9 \<le> confidence m"
proof -
  assume "m \<in> set (findMatches newSignature storedSignatures)"
  then have "m \<in> set (sort_key (\<lambda>m. - confidence m)
              (filter (\<lambda>m. confidence m \<ge> 0.9)
                 (map (\<lambda>stored. \<lparr>id_match = id_stored stored,
                                  userTag = userTag_stored stored,
                                  confidence = calculateSimilarity newSignature (signature stored)\<rparr>)
                    storedSignatures)))"
    unfolding findMatches_def Let_def by (rule in_set_takeD)
  then show ?thesis by simp
qed

lemma findMatches_sorted:
  "sorted_wrt (\<lambda>a b. confidence b \<le> confidence a) (findMatches newSignature storedSignatures)"
proof -
  have "sorted (map (\<lambda>m. - confidence m) (sort_key (\<lambda>m. - confidence m) xs))" for xs :: "Match list"
    by (rule sorted_sort_key)
  then have "sorted_wrt (\<lambda>a b. confidence b \<le> confidence a) (sort_key (\<lambda>m. - confidence m) xs)"
    for xs :: "Match list"
    by (simp add: sorted_map)
  then show ?thesis
    unfolding findMatches_def Let_def by (rule sorted_wrt_take)
qed

lemma sims:
  "calculateSimilarity (sig_of [''cup'', ''spoon''] 20) (sig_of [''spoon'', ''cup''] 19) = 0.985"
  "calculateSimilarity (sig_of [''cup'', ''spoon''] 20) (sig_of [''cup''] 20) = 0.65"
  "calculateSimilarity (sig_of [''cup'', ''spoon''] 20) (sig_of [''cup'', ''spoon''] 20) = 1"
  "calculateSimilarity (sig_of [''cup'', ''spoon''] 20) (sig_of [''spoon'', ''cup''] 18) = 0.97"
  "calculateSimilarity (sig_of [''cup'', ''spoon''] 20) (sig_of [''spoon'', ''cup''] 20) = 1"
  by (simp_all add: calculateSimilarity_def sig_of_def)

text \<open>
  C9. \<open>findMatches\<close> returns at most three matches, each with confidence at least 0.9,
  in order of nonincreasing confidence.
\<close>

theorem findMatches_top_three_above_threshold_sorted:
  "length (findMatches newSignature storedSignatures) \<le> 3
   \<and> (\<forall>m \<in> set (findMatches newSignature storedSignatures). 0.9 \<le> confidence m)
   \<and> sorted_wrt (\<lambda>a b. confidence b \<le> confidence a) (findMatches newSignature storedSignatures)
   \<and> (\<forall>i j. i < j \<and> j < length (findMatches newSignature storedSignatures) \<longrightarrow>
         confidence (findMatches newSignature storedSignatures ! j)
           \<le> confidence (findMatches newSignature storedSignatures ! i))"
  using findMatches_length [of newSignature storedSignatures]
    findMatches_threshold [of _ newSignature storedSignatures]
    findMatches_sorted [of newSignature storedSignatures]
  by (auto simp: sorted_wrt_iff_nth_less)

theorem findMatches_top_three_above_threshold_sorted_witness:
  "findMatches (sig_of [''cup'', ''spoon''] 20) shelf =
     [\<lparr>id_match = 3, userTag = ''breakfast'', confidence = 1\<rparr>,
      \<lparr>id_match = 5, userTag = ''tray'', confidence = 1\<rparr>,
      \<lparr>id_match = 1, userTag = ''tea set'', confidence = 0.985\<rparr>]
   \<and> length (findMatches (sig_of [''cup'', ''spoon''] 20) shelf) \<le> 3
   \<and> 0.9 \<le> confidence (findMatches (sig_of [''cup'', ''spoon''] 20) shelf ! 0)
   \<and> 0.9 \<le> confidence (findMatches (sig_of [''cup'', ''spoon''] 20) shelf ! 1)
   \<and> 0.9 \<le> confidence (findMatches (sig_of [''cup'', ''spoon''] 20) shelf ! 2)
   \<and> confidence (findMatches (sig_of [''cup'', ''spoon''] 20) shelf ! 2)
        \<le> confidence (findMatches (sig_of [''cup'', ''spoon''] 20) shelf ! 0)"
proof -
  have run: "findMatches (sig_of [''cup'', ''spoon''] 20) shelf =
     [\<lparr>id_match = 3, userTag = ''breakfast'', confidence = 1\<rparr>,
      \<lparr>id_match = 5, userTag = ''tray'', confidence = 1\<rparr>,
      \<lparr>id_match = 1, userTag = ''tea set'', confidence = 0.985\<rparr>]"
    by (simp add: findMatches_def shelf_def stored_of_def sims)
  have "(0::nat) < 2 \<and> 2 < length (findMatches (sig_of [''cup'', ''spoon''] 20) shelf)"
    by (simp add: run)
  with findMatches_top_three_above_threshold_sorted [of "sig_of [''cup'', ''spoon''] 20" shelf]
  show ?thesis by (simp add: run)
qed

text \<open>
  C10. For two signatures whose \<open>dominantObjects\<close> have no duplicates and whose
  \<open>objectCount\<close> is not negative, \<open>calculateSimilarity\<close> lies between 0 and 1, is 0
  when both \<open>dominantObjects\<close> are empty, and is the same with its arguments swapped.
\<close>

theorem calculateSimilarity_unit_interval_symmetric:
  assumes "distinct (dominantObjects sig1)" "distinct (dominantObjects sig2)"
    and "0 \<le> objectCount sig1" "0 \<le> objectCount sig2"
  shows "0 \<le> calculateSimilarity sig1 sig2 \<and> calculateSimilarity sig1 sig2 \<le> 1
     \<and> (dominantObjects sig1 = [] \<and> dominantObjects sig2 = [] \<longrightarrow>
          calculateSimilarity sig1 sig2 = 0)
     \<and> calculateSimilarity sig1 sig2 = calculateSimilarity sig2 sig1"
  using calculateSimilarity_range [OF assms(1,3,4)] calculateSimilarity_commute [OF assms(1,2)]
    calculateSimilarity_empty [of sig1 sig2]
  by blast

theorem calculateSimilarity_unit_interval_symmetric_witness:
  "distinct (dominantObjects (sig_of [''cup'', ''spoon''] 20))
   \<and> distinct (dominantObjects (sig_of [''cup''] 18))
   \<and> 0 \<le> objectCount (sig_of [''cup'', ''spoon''] 20) \<and> 0 \<le> objectCount (sig_of [''cup''] 18)
   \<and> calculateSimilarity (sig_of [''cup'', ''spoon''] 20) (sig_of [''cup''] 18) = 0.62
   \<and> calculateSimilarity (sig_of [''cup''] 18) (sig_of [''cup'', ''spoon''] 20) = 0.62
   \<and> dominantObjects (sig_of [] 4) = [] \<and> dominantObjects (sig_of [] 0) = []
   \<and> calculateSimilarity (sig_of [] 4) (sig_of [] 0) = 0"
proof -
  have a: "distinct (dominantObjects (sig_of [''cup'', ''spoon''] 20))"
    and b: "distinct (dominantObjects (sig_of [''cup''] 18))"
    and c: "0 \<le> objectCount (sig_of [''cup'', ''spoon''] 20)"
    and d: "0 \<le> objectCount (sig_of [''cup''] 18)"
    by (simp_all add: sig_of_def)
  have e: "distinct (dominantObjects (sig_of [] 4))" "distinct (dominantObjects (sig_of [] 0))"
    "0 \<le> objectCount (sig_of [] 4)" "0 \<le> objectCount (sig_of [] 0)"
    "dominantObjects (sig_of [] 4) = []" "dominantObjects (sig_of [] 0) = []"
    by (simp_all add: sig_of_def)
  have v: "calculateSimilarity (sig_of [''cup'', ''spoon''] 20) (sig_of [''cup''] 18) = 0.62"
    by (simp add: calculateSimilarity_def sig_of_def)
  from calculateSimilarity_unit_interval_symmetric [OF a b c d]
    calculateSimilarity_unit_interval_symmetric [OF e(1,2,3,4)] a b c d e(5,6) v
  show ?thesis by simp
qed

end
